theory Spec2Isabelle
  imports Main "HOL-Library.Word"
begin

section \<open>The OnyxChainStorage contract\<close>

text \<open>
  A shallow embedding of \<^verbatim>\<open>contracts/OnyxChainStorage.sol\<close> (Solidity 0.8.20).
  \<^item> \<^verbatim>\<open>uint256\<close> is a 256-bit word, \<^verbatim>\<open>address\<close> a 160-bit word; \<^verbatim>\<open>address(0)\<close> is \<open>0\<close>.
  \<^item> Solidity 0.8 arithmetic is checked: an overflowing \<^verbatim>\<open>*\<close> or \<^verbatim>\<open>++\<close> reverts the
    call with an arithmetic panic. The checks are written out.
  \<^item> A \<^verbatim>\<open>mapping\<close> is a total function: every key holds the zero value until written.
  \<^item> A call either returns \<open>Inr\<close> of its results and the new storage, or \<open>Inl\<close> of
    the reason it reverted with; a reverted call leaves the storage as it was.
  \<^item> Array lengths and loop counters are natural numbers (an array never holds
    \<open>2 ^ 256\<close> elements), and so is the ether balance of the contract (the ether supply
    is far below \<open>2 ^ 256\<close> wei).
  \<^item> \<^verbatim>\<open>emit\<close> statements write to the transaction log, which is not contract storage;
    they are left out.
  \<^item> Only \<open>uploadFile\<close> is payable, so only it takes a \<^verbatim>\<open>msg.value\<close>; the view
    functions read the storage and return no new one.
\<close>

type_synonym uint256 = "256 word"
type_synonym address = "160 word"

datatype error =
    Revert string  \<comment> \<open>\<^verbatim>\<open>require(cond, message)\<close> with a false condition\<close>
  | Panic  \<comment> \<open>checked arithmetic overflow, or an array index out of bounds\<close>
  | Unauthorized  \<comment> \<open>the \<^verbatim>\<open>onlyOwner\<close> modifier refused the caller\<close>
  | TransferFailed  \<comment> \<open>\<^verbatim>\<open>payable(a).transfer(v)\<close> was not accepted\<close>

record File =
  id' :: uint256
  fileName :: string
  fileType :: string
  fileSize :: uint256
  ipfsHash :: string
  description :: string
  owner :: address
  uploadTimestamp :: uint256
  isPublic :: bool
  isDeleted :: bool
  sharedWith :: "address \<Rightarrow> bool"

text \<open>
  The contract's storage. \<open>ownable_owner\<close> is the \<^verbatim>\<open>_owner\<close> slot inherited from
  \<^verbatim>\<open>Ownable\<close>, \<open>balance\<close> is \<^verbatim>\<open>address(this).balance\<close>.
\<close>

record state =
  storageFeePerByte :: uint256
  fileIdCounter :: uint256
  files :: "uint256 \<Rightarrow> File"
  userFiles :: "address \<Rightarrow> uint256 list"
  publicFiles :: "uint256 list"
  ownable_owner :: address
  balance :: nat

definition zero_File :: File where
  "zero_File = \<lparr>id' = 0, fileName = [], fileType = [], fileSize = 0, ipfsHash = [],
     description = [], owner = 0, uploadTimestamp = 0, isPublic = False, isDeleted = False,
     sharedWith = (\<lambda>_. False)\<rparr>"

text \<open>
  Deployment: the field initialisers of the contract, and \<^verbatim>\<open>Ownable(msg.sender)\<close>.
\<close>

definition constructor :: "address \<Rightarrow> state" where
  "constructor deployer =
     \<lparr>storageFeePerByte = 1000, fileIdCounter = 0, files = (\<lambda>_. zero_File),
      userFiles = (\<lambda>_. []), publicFiles = [], ownable_owner = deployer, balance = 0\<rparr>"

subsection \<open>Checked arithmetic, ether transfer, the imported modifier\<close>

definition checked_mul :: "uint256 \<Rightarrow> uint256 \<Rightarrow> error + uint256" where
  "checked_mul a b = (if unat a * unat b < 2 ^ 256 then Inr (a * b) else Inl Panic)"

definition checked_inc :: "uint256 \<Rightarrow> error + uint256" where
  "checked_inc a = (if unat a + 1 < 2 ^ 256 then Inr (a + 1) else Inl Panic)"

text \<open>
  \<^verbatim>\<open>payable(to).transfer(amount)\<close>: the contract's balance is debited when the recipient
  accepts the ether, and the whole call reverts when it does not (a contract without a
  payable fallback, or one that needs more than the 2300 gas stipend). Which
  addresses accept is a fact of the chain, the parameter \<open>accepts\<close>. The stipend is too
  small for the recipient to call back into the contract, so the \<^verbatim>\<open>nonReentrant\<close>
  guard never fires on a call modelled here and is left out.
\<close>

definition transfer_ether ::
  "(address \<Rightarrow> bool) \<Rightarrow> address \<Rightarrow> nat \<Rightarrow> state \<Rightarrow> error + state" where
  "transfer_ether accepts to amount s =
     (if amount \<le> balance s \<and> accepts to
      then Inr (s\<lparr>balance := balance s - amount\<rparr>)
      else Inl TransferFailed)"

text \<open>
  Modelled from the spec: the \<^verbatim>\<open>onlyOwner\<close> modifier of OpenZeppelin's \<^verbatim>\<open>Ownable\<close>, whose
  source is not part of the repository. The spec restricts the administrative
  operations to the administrator principal and names the failure \<open>Unauthorized\<close>.
\<close>

definition onlyOwner :: "address \<Rightarrow> state \<Rightarrow> bool" where
  "onlyOwner sender s = (sender = ownable_owner s)"

subsection \<open>The contract's functions\<close>

definition calculateStorageFee :: "uint256 \<Rightarrow> state \<Rightarrow> error + uint256" where
  "calculateStorageFee fileSize' s = checked_mul fileSize' (storageFeePerByte s)"

text \<open>
  \<open>uploadFile\<close> is payable: \<open>val\<close> is \<^verbatim>\<open>msg.value\<close>, credited to the contract before the
  body runs; \<open>now\<close> is \<^verbatim>\<open>block.timestamp\<close>. It returns the new id, the ether payments
  the call made, and the new storage. The \<^verbatim>\<open>sharedWith\<close> mapping of the slot is not
  written by the source, so it is kept.
\<close>

definition uploadFile ::
  "(address \<Rightarrow> bool) \<Rightarrow> address \<Rightarrow> uint256 \<Rightarrow> uint256 \<Rightarrow>
   string \<Rightarrow> string \<Rightarrow> uint256 \<Rightarrow> string \<Rightarrow> string \<Rightarrow> bool \<Rightarrow> state \<Rightarrow>
   error + (uint256 \<times> (address \<times> nat) list \<times> state)" where
  "uploadFile accepts sender val now fileName' fileType' fileSize' ipfsHash' description'
      isPublic' s =
     (case calculateStorageFee fileSize' s of
        Inl e \<Rightarrow> Inl e
      | Inr storageFee \<Rightarrow>
          if \<not> storageFee \<le> val
          then Inl (Revert ''Insufficient Ether sent to cover storage fees'')
          else
            (case checked_inc (fileIdCounter s) of
               Inl e \<Rightarrow> Inl e
             | Inr counter' \<Rightarrow>
                 let fileId = fileIdCounter s;
                     newFile = (files s fileId)
                       \<lparr>id' := fileId, fileName := fileName', fileType := fileType',
                        fileSize := fileSize', ipfsHash := ipfsHash',
                        description := description', owner := sender,
                        uploadTimestamp := now, isPublic := isPublic', isDeleted := False\<rparr>;
                     s1 = s\<lparr>balance := balance s + unat val,
                            fileIdCounter := counter',
                            files := (files s)(fileId := newFile),
                            userFiles := (userFiles s)(sender := userFiles s sender @ [fileId]),
                            publicFiles :=
                              (if isPublic' then publicFiles s @ [fileId] else publicFiles s)\<rparr>
                 in if storageFee < val
                    then (case transfer_ether accepts sender (unat (val - storageFee)) s1 of
                            Inl e \<Rightarrow> Inl e
                          | Inr s2 \<Rightarrow> Inr (fileId, [(sender, unat (val - storageFee))], s2))
                    else Inr (fileId, [], s1)))"

text \<open>
  The loop of \<open>deleteFile\<close>: scan the public index from position \<open>i\<close>; at the first
  position holding \<open>fileId\<close>, overwrite it with the last element, pop, and stop.
\<close>

function deleteFile_loop :: "uint256 \<Rightarrow> nat \<Rightarrow> uint256 list \<Rightarrow> uint256 list" where
  "deleteFile_loop fileId i pf =
     (if i < length pf
      then (if pf ! i = fileId
            then butlast (pf[i := pf ! (length pf - 1)])
            else deleteFile_loop fileId (Suc i) pf)
      else pf)"
  by pat_completeness auto
termination
  by (relation "measure (\<lambda>(fileId, i, pf). length pf - i)") auto

declare deleteFile_loop.simps [simp del]

definition deleteFile :: "address \<Rightarrow> uint256 \<Rightarrow> state \<Rightarrow> error + state" where
  "deleteFile sender fileId s =
     (if \<not> fileId < fileIdCounter s then Inl (Revert ''File does not exist'')
      else if \<not> owner (files s fileId) = sender
      then Inl (Revert ''Only the owner can delete this file'')
      else if isDeleted (files s fileId) then Inl (Revert ''File already deleted'')
      else
        let s1 = s\<lparr>files := (files s)(fileId := (files s fileId)\<lparr>isDeleted := True\<rparr>)\<rparr>
        in if isPublic (files s1 fileId)
           then Inr (s1\<lparr>publicFiles := deleteFile_loop fileId 0 (publicFiles s1)\<rparr>)
           else Inr s1)"

definition shareFile :: "address \<Rightarrow> uint256 \<Rightarrow> address \<Rightarrow> state \<Rightarrow> error + state" where
  "shareFile sender fileId recipient s =
     (if \<not> fileId < fileIdCounter s then Inl (Revert ''File does not exist'')
      else if \<not> owner (files s fileId) = sender
      then Inl (Revert ''Only the owner can share this file'')
      else if isDeleted (files s fileId) then Inl (Revert ''Cannot share a deleted file'')
      else if \<not> recipient \<noteq> 0 then Inl (Revert ''Invalid recipient address'')
      else if \<not> recipient \<noteq> sender then Inl (Revert ''Cannot share with yourself'')
      else Inr (s\<lparr>files := (files s)(fileId := (files s fileId)
                   \<lparr>sharedWith := (sharedWith (files s fileId))(recipient := True)\<rparr>)\<rparr>))"

definition revokeAccess :: "address \<Rightarrow> uint256 \<Rightarrow> address \<Rightarrow> state \<Rightarrow> error + state" where
  "revokeAccess sender fileId recipient s =
     (if \<not> fileId < fileIdCounter s then Inl (Revert ''File does not exist'')
      else if \<not> owner (files s fileId) = sender
      then Inl (Revert ''Only the owner can revoke access'')
      else if isDeleted (files s fileId) then Inl (Revert ''Cannot modify a deleted file'')
      else Inr (s\<lparr>files := (files s)(fileId := (files s fileId)
                   \<lparr>sharedWith := (sharedWith (files s fileId))(recipient := False)\<rparr>)\<rparr>))"

text \<open>
  The two loops of \<open>getMyFiles\<close>: the first counts the entries that are not deleted,
  the second copies them into an array allocated with that length. A write past the
  end of the array would revert with a panic.
\<close>

function getMyFiles_count :: "state \<Rightarrow> uint256 list \<Rightarrow> nat \<Rightarrow> nat \<Rightarrow> nat" where
  "getMyFiles_count s myFiles i activeCount =
     (if i < length myFiles
      then getMyFiles_count s myFiles (Suc i)
             (if \<not> isDeleted (files s (myFiles ! i)) then activeCount + 1 else activeCount)
      else activeCount)"
  by pat_completeness auto
termination
  by (relation "measure (\<lambda>(s, myFiles, i, activeCount). length myFiles - i)") auto

declare getMyFiles_count.simps [simp del]

function getMyFiles_copy ::
  "state \<Rightarrow> uint256 list \<Rightarrow> nat \<Rightarrow> nat \<Rightarrow> uint256 list \<Rightarrow> error + uint256 list" where
  "getMyFiles_copy s myFiles i index activeFiles =
     (if i < length myFiles
      then (if \<not> isDeleted (files s (myFiles ! i))
            then (if index < length activeFiles
                  then getMyFiles_copy s myFiles (Suc i) (index + 1)
                         (activeFiles[index := myFiles ! i])
                  else Inl Panic)
            else getMyFiles_copy s myFiles (Suc i) index activeFiles)
      else Inr activeFiles)"
  by pat_completeness auto
termination
  by (relation "measure (\<lambda>(s, myFiles, i, index, activeFiles). length myFiles - i)") auto

declare getMyFiles_copy.simps [simp del]

definition getMyFiles :: "address \<Rightarrow> state \<Rightarrow> error + uint256 list" where
  "getMyFiles sender s =
     (let myFiles = userFiles s sender;
          activeCount = getMyFiles_count s myFiles 0 0
      in getMyFiles_copy s myFiles 0 0 (replicate activeCount 0))"

type_synonym file_view =
  "uint256 \<times> string \<times> string \<times> uint256 \<times> string \<times> string \<times> address \<times> uint256 \<times> bool"

definition file_fields :: "File \<Rightarrow> file_view" where
  "file_fields file =
     (id' file, fileName file, fileType file, fileSize file, ipfsHash file,
      description file, owner file, uploadTimestamp file, isPublic file)"

definition getFile :: "address \<Rightarrow> uint256 \<Rightarrow> state \<Rightarrow> error + file_view" where
  "getFile sender fileId s =
     (if \<not> fileId < fileIdCounter s then Inl (Revert ''File does not exist'')
      else
        let file = files s fileId
        in if isDeleted file then Inl (Revert ''File has been deleted'')
           else if \<not> (owner file = sender \<or> isPublic file \<or> sharedWith file sender)
           then Inl (Revert ''You do not have permission to access this file'')
           else Inr (file_fields file))"

definition getPublicFiles :: "state \<Rightarrow> uint256 list" where
  "getPublicFiles s = publicFiles s"

definition hasFileAccess :: "uint256 \<Rightarrow> address \<Rightarrow> state \<Rightarrow> error + bool" where
  "hasFileAccess fileId user s =
     (if \<not> fileId < fileIdCounter s then Inl (Revert ''File does not exist'')
      else if isDeleted (files s fileId) then Inl (Revert ''File has been deleted'')
      else
        let file = files s fileId
        in Inr (owner file = user \<or> isPublic file \<or> sharedWith file user))"

definition updateStorageFee :: "address \<Rightarrow> uint256 \<Rightarrow> state \<Rightarrow> error + state" where
  "updateStorageFee sender newFeePerByte s =
     (if \<not> onlyOwner sender s then Inl Unauthorized
      else Inr (s\<lparr>storageFeePerByte := newFeePerByte\<rparr>))"

text \<open>
  \<open>withdrawFunds\<close> returns the ether payments it made and the new storage.
\<close>

definition withdrawFunds ::
  "(address \<Rightarrow> bool) \<Rightarrow> address \<Rightarrow> state \<Rightarrow> error + ((address \<times> nat) list \<times> state)" where
  "withdrawFunds accepts sender s =
     (if \<not> onlyOwner sender s then Inl Unauthorized
      else
        let amount = balance s
        in if \<not> amount > 0 then Inl (Revert ''No funds available to withdraw'')
           else (case transfer_ether accepts (ownable_owner s) amount s of
                   Inl e \<Rightarrow> Inl e
                 | Inr s1 \<Rightarrow> Inr ([(ownable_owner s, amount)], s1)))"

definition getContractBalance :: "address \<Rightarrow> state \<Rightarrow> error + nat" where
  "getContractBalance sender s =
     (if \<not> onlyOwner sender s then Inl Unauthorized else Inr (balance s))"

subsection \<open>Transactions and runs\<close>

text \<open>
  The state-changing entry points that the contract's source defines, as transactions;
  the first argument of each is \<^verbatim>\<open>msg.sender\<close>, and \<open>UploadFile\<close> also carries
  \<^verbatim>\<open>msg.value\<close> and \<^verbatim>\<open>block.timestamp\<close>. A transaction that reverts leaves the storage
  unchanged.
\<close>

datatype call =
    UploadFile address uint256 uint256 string string uint256 string string bool
  | DeleteFile address uint256
  | ShareFile address uint256 address
  | RevokeAccess address uint256 address
  | UpdateStorageFee address uint256
  | WithdrawFunds address

fun transact :: "(address \<Rightarrow> bool) \<Rightarrow> call \<Rightarrow> state \<Rightarrow> state" where
  "transact accepts (UploadFile sender val now fileName' fileType' fileSize' ipfsHash'
      description' isPublic') s =
     (case uploadFile accepts sender val now fileName' fileType' fileSize' ipfsHash'
             description' isPublic' s of
        Inl e \<Rightarrow> s
      | Inr (fileId, payments, s') \<Rightarrow> s')"
| "transact accepts (DeleteFile sender fileId) s =
     (case deleteFile sender fileId s of Inl e \<Rightarrow> s | Inr s' \<Rightarrow> s')"
| "transact accepts (ShareFile sender fileId recipient) s =
     (case shareFile sender fileId recipient s of Inl e \<Rightarrow> s | Inr s' \<Rightarrow> s')"
| "transact accepts (RevokeAccess sender fileId recipient) s =
     (case revokeAccess sender fileId recipient s of Inl e \<Rightarrow> s | Inr s' \<Rightarrow> s')"
| "transact accepts (UpdateStorageFee sender newFeePerByte) s =
     (case updateStorageFee sender newFeePerByte s of Inl e \<Rightarrow> s | Inr s' \<Rightarrow> s')"
| "transact accepts (WithdrawFunds sender) s =
     (case withdrawFunds accepts sender s of Inl e \<Rightarrow> s | Inr (payments, s') \<Rightarrow> s')"

text \<open>
  The creator and the id of the record a transaction registers, when it is an
  \<open>uploadFile\<close> that succeeds.
\<close>

fun issued :: "(address \<Rightarrow> bool) \<Rightarrow> call \<Rightarrow> state \<Rightarrow> (address \<times> uint256) list" where
  "issued accepts (UploadFile sender val now fileName' fileType' fileSize' ipfsHash'
      description' isPublic') s =
     (case uploadFile accepts sender val now fileName' fileType' fileSize' ipfsHash'
             description' isPublic' s of
        Inl e \<Rightarrow> []
      | Inr (fileId, payments, s') \<Rightarrow> [(sender, fileId)])"
| "issued accepts c s = []"

text \<open>
  A run is a sequence of transactions, each with the chain's \<open>accepts\<close> at its time.
  \<open>run\<close> is the storage after the run, \<open>issued_ids\<close> the records it registered, in
  the order of registration.
\<close>

fun run :: "((address \<Rightarrow> bool) \<times> call) list \<Rightarrow> state \<Rightarrow> state" where
  "run [] s = s"
| "run ((accepts, c) # cs) s = run cs (transact accepts c s)"

fun issued_ids :: "((address \<Rightarrow> bool) \<times> call) list \<Rightarrow> state \<Rightarrow> (address \<times> uint256) list" where
  "issued_ids [] s = []"
| "issued_ids ((accepts, c) # cs) s = issued accepts c s @ issued_ids cs (transact accepts c s)"

subsection \<open>Auxiliary definitions\<close>

text \<open>
  The fee as a natural number, \<^verbatim>\<open>fileSize * storageFeePerByte\<close> without the 256-bit bound.
\<close>

definition exact_fee :: "uint256 \<Rightarrow> state \<Rightarrow> nat" where
  "exact_fee fileSize' s = unat fileSize' * unat (storageFeePerByte s)"

text \<open>
  The invariant of the public index: no duplicates, exactly the ids of the records that
  are public and not deleted, and every public record has an id that was issued.
\<close>

definition public_inv :: "state \<Rightarrow> bool" where
  "public_inv s \<longleftrightarrow>
     distinct (publicFiles s) \<and>
     set (publicFiles s) = {i. isPublic (files s i) \<and> \<not> isDeleted (files s i)} \<and>
     (\<forall>i. isPublic (files s i) \<longrightarrow> i < fileIdCounter s)"

text \<open>
  A concrete run, used to exercise the theorems: the administrator (address 1) sets the
  rate to 100 wei per byte, as \<^verbatim>\<open>scripts/deploy.js\<close> does; address 10 registers a
  public and a private file of 1000 bytes, overpaying the second; then deletes the
  first and shares the second with address 11.
\<close>

definition accept_all :: "address \<Rightarrow> bool" where
  "accept_all a = True"

definition setup_txs :: "((address \<Rightarrow> bool) \<times> call) list" where
  "setup_txs =
     [(accept_all, UpdateStorageFee 1 100),
      (accept_all, UploadFile 10 100000 1700000000 ''a.txt'' ''text/plain'' 1000 ''QmA'' [] True),
      (accept_all, UploadFile 10 150000 1700000060 ''b.txt'' ''text/plain'' 1000 ''QmB'' [] False)]"

definition scenario_txs :: "((address \<Rightarrow> bool) \<times> call) list" where
  "scenario_txs = setup_txs @ [(accept_all, DeleteFile 10 0), (accept_all, ShareFile 10 1 11)]"

text \<open>
  A second concrete run, between ordinary accounts: the administrator 1000001 deploys
  and sets the rate to 100 wei per byte, and account 1000010 registers a file of 1000
  bytes, paying 150000 wei. \<open>refuse_admin\<close> is a chain on which the administrator's
  address does not accept ether (a contract without a payable fallback).
\<close>

definition funded_txs :: "((address \<Rightarrow> bool) \<times> call) list" where
  "funded_txs =
     [(accept_all, UpdateStorageFee 1000001 100),
      (accept_all, UploadFile 1000010 150000 1700000060 ''b.txt'' ''text/plain'' 1000 ''QmB'' []
         False)]"

definition refuse_admin :: "address \<Rightarrow> bool" where
  "refuse_admin a = (a \<noteq> 1000001)"

section \<open>Properties\<close>

subsection \<open>Words\<close>

lemma unat_inc: "unat (c :: uint256) + 1 < 2 ^ 256 \<Longrightarrow> unat (c + 1) = unat c + 1"
  using unat_add_lem [of c 1] by simp

lemma less_inc_iff:
  "unat (c :: uint256) + 1 < 2 ^ 256 \<Longrightarrow> i < c + 1 \<longleftrightarrow> i < c \<or> i = c"
  by (auto simp: word_less_nat_alt unat_inc word_unat_eq_iff)

lemma less_inc: "unat (c :: uint256) + 1 < 2 ^ 256 \<Longrightarrow> c < c + 1"
  by (simp add: less_inc_iff)

subsection \<open>What a successful call did\<close>

lemma uploadFile_Inr:
  assumes "uploadFile accepts sender val now fileName' fileType' fileSize' ipfsHash'
             description' isPublic' s = Inr (fileId, payments, s')"
  shows "fileId = fileIdCounter s"
    and "unat (fileIdCounter s) + 1 < 2 ^ 256"
    and "fileIdCounter s' = fileIdCounter s + 1"
    and "files s' = (files s)(fileIdCounter s := (files s (fileIdCounter s))
           \<lparr>id' := fileIdCounter s, fileName := fileName', fileType := fileType',
            fileSize := fileSize', ipfsHash := ipfsHash', description := description',
            owner := sender, uploadTimestamp := now, isPublic := isPublic',
            isDeleted := False\<rparr>)"
    and "userFiles s' = (userFiles s)(sender := userFiles s sender @ [fileIdCounter s])"
    and "publicFiles s' =
           (if isPublic' then publicFiles s @ [fileIdCounter s] else publicFiles s)"
    and "storageFeePerByte s' = storageFeePerByte s"
    and "ownable_owner s' = ownable_owner s"
  using assms
  by (auto simp: uploadFile_def checked_inc_def transfer_ether_def Let_def
      split: sum.splits if_splits)

lemma deleteFile_Inr:
  assumes "deleteFile sender fileId s = Inr s'"
  shows "fileId < fileIdCounter s"
    and "owner (files s fileId) = sender"
    and "\<not> isDeleted (files s fileId)"
    and "files s' = (files s)(fileId := (files s fileId)\<lparr>isDeleted := True\<rparr>)"
    and "publicFiles s' =
           (if isPublic (files s fileId) then deleteFile_loop fileId 0 (publicFiles s)
            else publicFiles s)"
    and "fileIdCounter s' = fileIdCounter s"
    and "userFiles s' = userFiles s"
    and "storageFeePerByte s' = storageFeePerByte s"
  using assms by (auto simp: deleteFile_def Let_def split: if_splits)

lemma shareFile_Inr:
  assumes "shareFile sender fileId recipient s = Inr s'"
  shows "fileId < fileIdCounter s"
    and "owner (files s fileId) = sender"
    and "\<not> isDeleted (files s fileId)"
    and "recipient \<noteq> 0"
    and "recipient \<noteq> sender"
    and "s' = s\<lparr>files := (files s)(fileId := (files s fileId)
           \<lparr>sharedWith := (sharedWith (files s fileId))(recipient := True)\<rparr>)\<rparr>"
  using assms by (auto simp: shareFile_def split: if_splits)

lemma revokeAccess_Inr:
  assumes "revokeAccess sender fileId recipient s = Inr s'"
  shows "fileId < fileIdCounter s"
    and "owner (files s fileId) = sender"
    and "\<not> isDeleted (files s fileId)"
    and "s' = s\<lparr>files := (files s)(fileId := (files s fileId)
           \<lparr>sharedWith := (sharedWith (files s fileId))(recipient := False)\<rparr>)\<rparr>"
  using assms by (auto simp: revokeAccess_def split: if_splits)

lemma updateStorageFee_Inr:
  assumes "updateStorageFee sender newFeePerByte s = Inr s'"
  shows "sender = ownable_owner s" and "s' = s\<lparr>storageFeePerByte := newFeePerByte\<rparr>"
  using assms by (auto simp: updateStorageFee_def onlyOwner_def split: if_splits)

lemma withdrawFunds_Inr:
  assumes "withdrawFunds accepts sender s = Inr (payments, s')"
  shows "sender = ownable_owner s" and "0 < balance s" and "accepts (ownable_owner s)"
    and "payments = [(ownable_owner s, balance s)]" and "s' = s\<lparr>balance := 0\<rparr>"
  using assms
  by (auto simp: withdrawFunds_def onlyOwner_def transfer_ether_def Let_def
      split: if_splits sum.splits)

lemma calculateStorageFee_cases:
  "(exact_fee fileSize' s < 2 ^ 256 \<and>
      (\<exists>fee. calculateStorageFee fileSize' s = Inr fee \<and> unat fee = exact_fee fileSize' s)) \<or>
   (2 ^ 256 \<le> exact_fee fileSize' s \<and> calculateStorageFee fileSize' s = Inl Panic)"
proof (cases "exact_fee fileSize' s < 2 ^ 256")
  case True
  then have "unat (fileSize' * storageFeePerByte s) = exact_fee fileSize' s"
    using unat_mult_lem [of fileSize' "storageFeePerByte s"] by (simp add: exact_fee_def)
  with True show ?thesis
    by (simp add: calculateStorageFee_def checked_mul_def exact_fee_def)
next
  case False
  then show ?thesis
    by (simp add: calculateStorageFee_def checked_mul_def exact_fee_def)
qed

lemma uploadFile_cases:
  "(case uploadFile accepts sender val now fileName' fileType' fileSize' ipfsHash' description'
           isPublic' s of
      Inr (fileId, payments, s') \<Rightarrow>
        exact_fee fileSize' s < 2 ^ 256 \<and> exact_fee fileSize' s \<le> unat val \<and>
        unat (fileIdCounter s) + 1 < 2 ^ 256 \<and>
        (exact_fee fileSize' s < unat val \<longrightarrow> accepts sender) \<and>
        payments = (if exact_fee fileSize' s < unat val
                    then [(sender, unat val - exact_fee fileSize' s)] else []) \<and>
        balance s' = balance s + exact_fee fileSize' s
    | Inl e \<Rightarrow>
        transact accepts (UploadFile sender val now fileName' fileType' fileSize' ipfsHash'
          description' isPublic') s = s \<and>
        e = (if 2 ^ 256 \<le> exact_fee fileSize' s then Panic
             else if unat val < exact_fee fileSize' s
             then Revert ''Insufficient Ether sent to cover storage fees''
             else if \<not> unat (fileIdCounter s) + 1 < 2 ^ 256 then Panic
             else TransferFailed) \<and>
        (e = TransferFailed \<longrightarrow> exact_fee fileSize' s < unat val \<and> \<not> accepts sender))"
proof -
  from calculateStorageFee_cases [of fileSize' s] show ?thesis
  proof (elim disjE conjE exE)
    fix fee
    assume small: "exact_fee fileSize' s < 2 ^ 256"
      and fee: "calculateStorageFee fileSize' s = Inr fee" "unat fee = exact_fee fileSize' s"
    have le: "fee \<le> val \<longleftrightarrow> exact_fee fileSize' s \<le> unat val"
      and lt: "fee < val \<longleftrightarrow> exact_fee fileSize' s < unat val"
      using fee(2) by (simp_all add: word_le_nat_alt word_less_nat_alt)
    have sub: "fee \<le> val \<Longrightarrow> unat (val - fee) = unat val - exact_fee fileSize' s"
      using fee(2) by (simp add: unat_sub)
    show ?thesis
      using small fee(1) le lt sub
      by (auto simp: uploadFile_def checked_inc_def transfer_ether_def Let_def
          split: sum.splits)
  next
    assume "2 ^ 256 \<le> exact_fee fileSize' s" "calculateStorageFee fileSize' s = Inl Panic"
    then show ?thesis by (simp add: uploadFile_def)
  qed
qed

subsection \<open>The id counter\<close>

lemma issued_cases:
  "issued accepts c s = [] \<or>
   (\<exists>a. issued accepts c s = [(a, fileIdCounter s)] \<and>
        fileIdCounter s < fileIdCounter (transact accepts c s))"
proof (cases c)
  case (UploadFile sender val now fileName' fileType' fileSize' ipfsHash' description' isPublic')
  show ?thesis
  proof (cases "uploadFile accepts sender val now fileName' fileType' fileSize' ipfsHash'
             description' isPublic' s")
    case (Inl e)
    then show ?thesis using UploadFile by simp
  next
    case (Inr r)
    obtain fileId payments s' where r: "r = (fileId, payments, s')" by (cases r)
    from uploadFile_Inr(1-3) [OF Inr [unfolded r]] Inr r UploadFile show ?thesis
      by (simp add: less_inc)
  qed
qed simp_all

lemma fileIdCounter_transact: "fileIdCounter s \<le> fileIdCounter (transact accepts c s)"
proof (cases c)
  case (UploadFile sender val now fileName' fileType' fileSize' ipfsHash' description' isPublic')
  show ?thesis
  proof (cases "uploadFile accepts sender val now fileName' fileType' fileSize' ipfsHash'
             description' isPublic' s")
    case (Inl e)
    then show ?thesis using UploadFile by simp
  next
    case (Inr r)
    obtain fileId payments s' where r: "r = (fileId, payments, s')" by (cases r)
    from uploadFile_Inr(1-3) [OF Inr [unfolded r]] Inr r UploadFile show ?thesis
      using less_inc [of "fileIdCounter s"] by simp
  qed
next
  case (DeleteFile sender fileId)
  then show ?thesis by (simp add: deleteFile_def Let_def)
next
  case (ShareFile sender fileId recipient)
  then show ?thesis by (simp add: shareFile_def)
next
  case (RevokeAccess sender fileId recipient)
  then show ?thesis by (simp add: revokeAccess_def)
next
  case (UpdateStorageFee sender newFeePerByte)
  then show ?thesis by (simp add: updateStorageFee_def)
next
  case (WithdrawFunds sender)
  then show ?thesis
    by (simp add: withdrawFunds_def transfer_ether_def Let_def split: sum.splits)
qed

subsection \<open>The public index\<close>

lemma swap_pop:
  assumes "distinct pf" and "i < length pf"
  shows "distinct (butlast (pf[i := pf ! (length pf - 1)])) \<and>
         set (butlast (pf[i := pf ! (length pf - 1)])) = set pf - {pf ! i}"
proof (cases pf rule: rev_cases)
  case Nil
  with assms show ?thesis by simp
next
  case (snoc xs l)
  show ?thesis
  proof (cases "i = length xs")
    case True
    with snoc assms show ?thesis by auto
  next
    case False
    with snoc assms have i: "i < length xs" by simp
    have upd: "butlast (pf[i := pf ! (length pf - 1)]) = xs[i := l]"
      using snoc i by (simp add: list_update_append butlast_append)
    have d: "distinct xs" "l \<notin> set xs" using assms(1) snoc by simp_all
    have "distinct (xs[i := l])" using d by (simp add: distinct_list_update)
    moreover have "set (xs[i := l]) = insert l (set xs - {xs ! i})"
      using d i by (simp add: set_update_distinct)
    moreover have "pf ! i = xs ! i" using snoc i by (simp add: nth_append)
    moreover have "xs ! i \<noteq> l" using d i by (metis nth_mem)
    ultimately show ?thesis using upd snoc d by auto
  qed
qed

lemma deleteFile_loop_removes:
  "distinct pf \<Longrightarrow> fileId \<notin> set (take i pf) \<Longrightarrow>
   distinct (deleteFile_loop fileId i pf) \<and>
   set (deleteFile_loop fileId i pf) = set pf - {fileId}"
proof (induction fileId i pf rule: deleteFile_loop.induct)
  case (1 fileId i pf)
  show ?case
  proof (cases "i < length pf")
    case False
    with "1.prems" show ?thesis by (simp add: deleteFile_loop.simps [of fileId i pf])
  next
    case True
    show ?thesis
    proof (cases "pf ! i = fileId")
      case hit: True
      from swap_pop [OF "1.prems"(1) True] hit True show ?thesis
        by (simp add: deleteFile_loop.simps [of fileId i pf])
    next
      case miss: False
      have "fileId \<notin> set (take (Suc i) pf)"
        using "1.prems"(2) miss True by (simp add: take_Suc_conv_app_nth)
      from "1.IH" [OF True miss "1.prems"(1) this] True miss show ?thesis
        by (simp add: deleteFile_loop.simps [of fileId i pf])
    qed
  qed
qed

lemma public_inv_constructor: "public_inv (constructor deployer)"
  by (simp add: public_inv_def constructor_def zero_File_def)

lemma public_inv_uploadFile:
  assumes "public_inv s"
    and "uploadFile accepts sender val now fileName' fileType' fileSize' ipfsHash'
           description' isPublic' s = Inr (fileId, payments, s')"
  shows "public_inv s'"
proof -
  note u = uploadFile_Inr [OF assms(2)]
  let ?c = "fileIdCounter s"
  have inv: "distinct (publicFiles s)"
    "set (publicFiles s) = {i. isPublic (files s i) \<and> \<not> isDeleted (files s i)}"
    "\<And>i. isPublic (files s i) \<Longrightarrow> i < ?c"
    using assms(1) by (simp_all add: public_inv_def)
  have fresh: "\<not> isPublic (files s ?c)" using inv(3) [of ?c] by auto
  then have notin: "?c \<notin> set (publicFiles s)" by (simp add: inv(2))
  have pub: "\<And>i. isPublic (files s' i) = (if i = ?c then isPublic' else isPublic (files s i))"
    and del: "\<And>i. isDeleted (files s' i) = (if i = ?c then False else isDeleted (files s i))"
    by (simp_all add: u(4))
  have 1: "distinct (publicFiles s')" using inv(1) notin by (simp add: u(6))
  have 2: "set (publicFiles s') = {i. isPublic (files s' i) \<and> \<not> isDeleted (files s' i)}"
  proof (cases isPublic')
    case True
    then show ?thesis using fresh by (auto simp: u(6) inv(2) pub del)
  next
    case False
    then show ?thesis using fresh by (auto simp: u(6) inv(2) pub del)
  qed
  have 3: "\<And>i. isPublic (files s' i) \<Longrightarrow> i < fileIdCounter s'"
    using inv(3) u(2) by (auto simp: pub u(3) less_inc_iff split: if_splits)
  from 1 2 3 show ?thesis by (simp add: public_inv_def)
qed

lemma public_inv_deleteFile:
  assumes "public_inv s" and "deleteFile sender fileId s = Inr s'"
  shows "public_inv s'"
proof -
  note d = deleteFile_Inr [OF assms(2)]
  have inv: "distinct (publicFiles s)"
    "set (publicFiles s) = {i. isPublic (files s i) \<and> \<not> isDeleted (files s i)}"
    "\<And>i. isPublic (files s i) \<Longrightarrow> i < fileIdCounter s"
    using assms(1) by (simp_all add: public_inv_def)
  have rm: "distinct (deleteFile_loop fileId 0 (publicFiles s))"
    "set (deleteFile_loop fileId 0 (publicFiles s)) = set (publicFiles s) - {fileId}"
    using deleteFile_loop_removes [OF inv(1), of fileId 0] by simp_all
  have pub: "\<And>i. isPublic (files s' i) = isPublic (files s i)"
    and del: "\<And>i. isDeleted (files s' i) = (if i = fileId then True else isDeleted (files s i))"
    by (simp_all add: d(4))
  have 1: "distinct (publicFiles s')" using inv(1) rm(1) by (simp add: d(5))
  have 2: "set (publicFiles s') = {i. isPublic (files s' i) \<and> \<not> isDeleted (files s' i)}"
  proof (cases "isPublic (files s fileId)")
    case True
    then show ?thesis by (auto simp: d(5) rm(2) inv(2) pub del)
  next
    case False
    then show ?thesis by (auto simp: d(5) inv(2) pub del)
  qed
  have 3: "\<And>i. isPublic (files s' i) \<Longrightarrow> i < fileIdCounter s'"
    using inv(3) by (simp add: pub d(6))
  from 1 2 3 show ?thesis by (simp add: public_inv_def)
qed

lemma public_inv_sharedWith:
  assumes "public_inv s"
  shows "public_inv (s\<lparr>files := (files s)(fileId := (files s fileId)\<lparr>sharedWith := g\<rparr>)\<rparr>)"
proof -
  let ?s' = "s\<lparr>files := (files s)(fileId := (files s fileId)\<lparr>sharedWith := g\<rparr>)\<rparr>"
  have pub: "\<And>i. isPublic (files ?s' i) = isPublic (files s i)"
    and del: "\<And>i. isDeleted (files ?s' i) = isDeleted (files s i)"
    by simp_all
  show ?thesis using assms unfolding public_inv_def pub del by simp
qed

lemma public_inv_frame:
  "files s' = files s \<Longrightarrow> publicFiles s' = publicFiles s \<Longrightarrow>
   fileIdCounter s' = fileIdCounter s \<Longrightarrow> public_inv s' = public_inv s"
  by (simp add: public_inv_def)

lemma public_inv_transact:
  assumes "public_inv s"
  shows "public_inv (transact accepts c s)"
proof (cases c)
  case (UploadFile sender val now fileName' fileType' fileSize' ipfsHash' description' isPublic')
  show ?thesis
  proof (cases "uploadFile accepts sender val now fileName' fileType' fileSize' ipfsHash'
             description' isPublic' s")
    case (Inl e)
    then show ?thesis using UploadFile assms by simp
  next
    case (Inr r)
    obtain fileId payments s' where r: "r = (fileId, payments, s')" by (cases r)
    from public_inv_uploadFile [OF assms Inr [unfolded r]] show ?thesis
      using UploadFile Inr r by simp
  qed
next
  case (DeleteFile sender fileId)
  show ?thesis
  proof (cases "deleteFile sender fileId s")
    case (Inl e)
    then show ?thesis using DeleteFile assms by simp
  next
    case (Inr s')
    from public_inv_deleteFile [OF assms Inr] show ?thesis using DeleteFile Inr by simp
  qed
next
  case (ShareFile sender fileId recipient)
  show ?thesis
  proof (cases "shareFile sender fileId recipient s")
    case (Inl e)
    then show ?thesis using ShareFile assms by simp
  next
    case (Inr s')
    from shareFile_Inr(6) [OF Inr] public_inv_sharedWith [OF assms] show ?thesis
      using ShareFile Inr by simp
  qed
next
  case (RevokeAccess sender fileId recipient)
  show ?thesis
  proof (cases "revokeAccess sender fileId recipient s")
    case (Inl e)
    then show ?thesis using RevokeAccess assms by simp
  next
    case (Inr s')
    from revokeAccess_Inr(4) [OF Inr] public_inv_sharedWith [OF assms] show ?thesis
      using RevokeAccess Inr by simp
  qed
next
  case (UpdateStorageFee sender newFeePerByte)
  show ?thesis
  proof (cases "updateStorageFee sender newFeePerByte s")
    case (Inl e)
    then show ?thesis using UpdateStorageFee assms by simp
  next
    case (Inr s')
    have "public_inv s' = public_inv s"
      by (rule public_inv_frame) (simp_all add: updateStorageFee_Inr(2) [OF Inr])
    then show ?thesis using UpdateStorageFee Inr assms by simp
  qed
next
  case (WithdrawFunds sender)
  show ?thesis
  proof (cases "withdrawFunds accepts sender s")
    case (Inl e)
    then show ?thesis using WithdrawFunds assms by simp
  next
    case (Inr r)
    obtain payments s' where r: "r = (payments, s')" by (cases r)
    have "public_inv s' = public_inv s"
      by (rule public_inv_frame) (simp_all add: withdrawFunds_Inr(5) [OF Inr [unfolded r]])
    then show ?thesis using WithdrawFunds Inr r assms by simp
  qed
qed

lemma public_inv_run: "public_inv s \<Longrightarrow> public_inv (run txs s)"
  by (induction txs arbitrary: s) (auto simp: public_inv_transact)

subsection \<open>The loops of getMyFiles, and the per-user lists\<close>

lemma getMyFiles_count_eq:
  "getMyFiles_count s myFiles i activeCount =
     activeCount + length (filter (\<lambda>j. \<not> isDeleted (files s j)) (drop i myFiles))"
proof (induction s myFiles i activeCount rule: getMyFiles_count.induct)
  case (1 s myFiles i activeCount)
  show ?case
  proof (cases "i < length myFiles")
    case False
    then show ?thesis by (simp add: getMyFiles_count.simps [of s myFiles i])
  next
    case True
    have d: "drop i myFiles = myFiles ! i # drop (Suc i) myFiles"
      using True by (simp add: Cons_nth_drop_Suc)
    show ?thesis
      using True "1.IH" [OF True]
      by (simp add: getMyFiles_count.simps [of s myFiles i] d)
  qed
qed

lemma getMyFiles_copy_eq:
  "index + length (filter (\<lambda>j. \<not> isDeleted (files s j)) (drop i myFiles)) \<le> length activeFiles
   \<Longrightarrow> getMyFiles_copy s myFiles i index activeFiles =
     Inr (take index activeFiles @ filter (\<lambda>j. \<not> isDeleted (files s j)) (drop i myFiles) @
          drop (index + length (filter (\<lambda>j. \<not> isDeleted (files s j)) (drop i myFiles)))
            activeFiles)"
proof (induction s myFiles i index activeFiles rule: getMyFiles_copy.induct)
  case (1 s myFiles i index activeFiles)
  let ?P = "\<lambda>j. \<not> isDeleted (files s j)"
  show ?case
  proof (cases "i < length myFiles")
    case False
    then show ?thesis by (simp add: getMyFiles_copy.simps [of s myFiles i])
  next
    case True
    have d: "drop i myFiles = myFiles ! i # drop (Suc i) myFiles"
      using True by (simp add: Cons_nth_drop_Suc)
    show ?thesis
    proof (cases "isDeleted (files s (myFiles ! i))")
      case del: True
      have "index + length (filter ?P (drop (Suc i) myFiles)) \<le> length activeFiles"
        using "1.prems" del by (simp add: d)
      from "1.IH"(2) [OF True _ this] del True show ?thesis
        by (simp add: getMyFiles_copy.simps [of s myFiles i] d)
    next
      case live: False
      have idx: "index < length activeFiles" using "1.prems" live by (simp add: d)
      have le: "index + 1 + length (filter ?P (drop (Suc i) myFiles))
                  \<le> length (activeFiles[index := myFiles ! i])"
        using "1.prems" live by (simp add: d)
      have tk: "take (index + 1) (activeFiles[index := myFiles ! i]) =
                  take index activeFiles @ [myFiles ! i]"
        using idx by (simp add: take_Suc_conv_app_nth)
      have dr: "\<And>k. drop (index + 1 + k) (activeFiles[index := myFiles ! i]) =
                  drop (index + 1 + k) activeFiles"
        by simp
      from "1.IH"(1) [OF True _ idx le] live True idx show ?thesis
        unfolding tk dr
        by (simp add: getMyFiles_copy.simps [of s myFiles i] d)
    qed
  qed
qed

lemma getMyFiles_eq:
  "getMyFiles sender s = Inr (filter (\<lambda>j. \<not> isDeleted (files s j)) (userFiles s sender))"
  by (simp add: getMyFiles_def Let_def getMyFiles_count_eq getMyFiles_copy_eq)

lemma userFiles_transact:
  "userFiles (transact accepts c s) a =
     userFiles s a @ map snd (filter (\<lambda>p. fst p = a) (issued accepts c s))"
proof (cases c)
  case (UploadFile sender val now fileName' fileType' fileSize' ipfsHash' description' isPublic')
  show ?thesis
  proof (cases "uploadFile accepts sender val now fileName' fileType' fileSize' ipfsHash'
             description' isPublic' s")
    case (Inl e)
    then show ?thesis using UploadFile by simp
  next
    case (Inr r)
    obtain fileId payments s' where r: "r = (fileId, payments, s')" by (cases r)
    from uploadFile_Inr(1,5) [OF Inr [unfolded r]] show ?thesis
      using UploadFile Inr r by simp
  qed
next
  case (DeleteFile sender fileId)
  then show ?thesis by (auto split: sum.splits dest: deleteFile_Inr(7))
next
  case (ShareFile sender fileId recipient)
  then show ?thesis by (auto split: sum.splits dest: shareFile_Inr(6))
next
  case (RevokeAccess sender fileId recipient)
  then show ?thesis by (auto split: sum.splits dest: revokeAccess_Inr(4))
next
  case (UpdateStorageFee sender newFeePerByte)
  then show ?thesis by (auto split: sum.splits dest: updateStorageFee_Inr(2))
next
  case (WithdrawFunds sender)
  then show ?thesis by (auto split: sum.splits dest: withdrawFunds_Inr(5))
qed

lemma userFiles_run:
  "userFiles (run txs s) a =
     userFiles s a @ map snd (filter (\<lambda>p. fst p = a) (issued_ids txs s))"
  by (induction txs arbitrary: s) (auto simp: userFiles_transact)

subsection \<open>Deleted records stay deleted\<close>

lemma deleted_transact:
  assumes "fileId < fileIdCounter s" and "isDeleted (files s fileId)"
  shows "fileId < fileIdCounter (transact accepts c s) \<and>
         isDeleted (files (transact accepts c s) fileId)"
proof -
  have lt: "fileId < fileIdCounter (transact accepts c s)"
    using assms(1) fileIdCounter_transact [of s accepts c] by (rule less_le_trans)
  have "isDeleted (files (transact accepts c s) fileId)"
  proof (cases c)
    case (UploadFile sender val now fileName' fileType' fileSize' ipfsHash' description'
        isPublic')
    show ?thesis
    proof (cases "uploadFile accepts sender val now fileName' fileType' fileSize' ipfsHash'
               description' isPublic' s")
      case (Inl e)
      then show ?thesis using UploadFile assms by simp
    next
      case (Inr r)
      obtain fid payments s' where r: "r = (fid, payments, s')" by (cases r)
      have "fileId \<noteq> fileIdCounter s" using assms(1) by auto
      with uploadFile_Inr(4) [OF Inr [unfolded r]] show ?thesis
        using UploadFile Inr r assms(2) by simp
    qed
  next
    case (DeleteFile sender fid)
    show ?thesis
    proof (cases "deleteFile sender fid s")
      case (Inl e)
      then show ?thesis using DeleteFile assms by simp
    next
      case (Inr s')
      from deleteFile_Inr(4) [OF Inr] show ?thesis using DeleteFile Inr assms(2) by simp
    qed
  next
    case (ShareFile sender fid recipient)
    show ?thesis
    proof (cases "shareFile sender fid recipient s")
      case (Inl e)
      then show ?thesis using ShareFile assms by simp
    next
      case (Inr s')
      from shareFile_Inr(6) [OF Inr] show ?thesis using ShareFile Inr assms(2) by auto
    qed
  next
    case (RevokeAccess sender fid recipient)
    show ?thesis
    proof (cases "revokeAccess sender fid recipient s")
      case (Inl e)
      then show ?thesis using RevokeAccess assms by simp
    next
      case (Inr s')
      from revokeAccess_Inr(4) [OF Inr] show ?thesis using RevokeAccess Inr assms(2) by auto
    qed
  next
    case (UpdateStorageFee sender newFeePerByte)
    show ?thesis
    proof (cases "updateStorageFee sender newFeePerByte s")
      case (Inl e)
      then show ?thesis using UpdateStorageFee assms by simp
    next
      case (Inr s')
      from updateStorageFee_Inr(2) [OF Inr] show ?thesis
        using UpdateStorageFee Inr assms(2) by simp
    qed
  next
    case (WithdrawFunds sender)
    show ?thesis
    proof (cases "withdrawFunds accepts sender s")
      case (Inl e)
      then show ?thesis using WithdrawFunds assms by simp
    next
      case (Inr r)
      obtain payments s' where r: "r = (payments, s')" by (cases r)
      from withdrawFunds_Inr(5) [OF Inr [unfolded r]] show ?thesis
        using WithdrawFunds Inr r assms(2) by simp
    qed
  qed
  with lt show ?thesis by simp
qed

lemma deleted_run:
  "fileId < fileIdCounter s \<Longrightarrow> isDeleted (files s fileId) \<Longrightarrow>
   fileId < fileIdCounter (run txs s) \<and> isDeleted (files (run txs s) fileId)"
proof (induction txs arbitrary: s)
  case Nil
  then show ?case by simp
next
  case (Cons tx txs)
  obtain accepts c where tx: "tx = (accepts, c)" by (cases tx)
  from deleted_transact [OF Cons.prems, of accepts c] Cons.IH [of "transact accepts c s"] tx
  show ?case by simp
qed

subsection \<open>The concrete run, evaluated\<close>

lemmas eval_defs = setup_txs_def scenario_txs_def accept_all_def constructor_def zero_File_def
  uploadFile_def calculateStorageFee_def checked_mul_def checked_inc_def transfer_ether_def
  deleteFile_def deleteFile_loop.simps shareFile_def revokeAccess_def updateStorageFee_def
  withdrawFunds_def onlyOwner_def Let_def

lemma setup_state:
  "fileIdCounter (run setup_txs (constructor 1)) = 2"
  "storageFeePerByte (run setup_txs (constructor 1)) = 100"
  "publicFiles (run setup_txs (constructor 1)) = [0]"
  "userFiles (run setup_txs (constructor 1)) 10 = [0, 1]"
  "balance (run setup_txs (constructor 1)) = 200000"
  "ownable_owner (run setup_txs (constructor 1)) = 1"
  "owner (files (run setup_txs (constructor 1)) 0) = 10"
  "\<not> isDeleted (files (run setup_txs (constructor 1)) 0)"
  "isPublic (files (run setup_txs (constructor 1)) 0)"
  by (simp_all add: eval_defs)

lemma scenario_state:
  "fileIdCounter (run scenario_txs (constructor 1)) = 2"
  "storageFeePerByte (run scenario_txs (constructor 1)) = 100"
  "publicFiles (run scenario_txs (constructor 1)) = []"
  "userFiles (run scenario_txs (constructor 1)) 10 = [0, 1]"
  "balance (run scenario_txs (constructor 1)) = 200000"
  "ownable_owner (run scenario_txs (constructor 1)) = 1"
  "isDeleted (files (run scenario_txs (constructor 1)) 0)"
  "\<not> isDeleted (files (run scenario_txs (constructor 1)) 1)"
  "owner (files (run scenario_txs (constructor 1)) 1) = 10"
  "\<not> isPublic (files (run scenario_txs (constructor 1)) 1)"
  "sharedWith (files (run scenario_txs (constructor 1)) 1) 11"
  "\<not> sharedWith (files (run scenario_txs (constructor 1)) 1) 12"
  "\<not> sharedWith (files (run scenario_txs (constructor 1)) 1) 0"
  "file_fields (files (run scenario_txs (constructor 1)) 1) =
     (1, ''b.txt'', ''text/plain'', 1000, ''QmB'', [], 10, 1700000060, False)"
  by (simp_all add: eval_defs file_fields_def)

lemma funded_state:
  "fileIdCounter (run funded_txs (constructor 1000001)) = 1"
  "storageFeePerByte (run funded_txs (constructor 1000001)) = 100"
  "balance (run funded_txs (constructor 1000001)) = 100000"
  "ownable_owner (run funded_txs (constructor 1000001)) = 1000001"
  by (simp_all add: funded_txs_def eval_defs)

section \<open>The claims\<close>

subsection \<open>C1: who may read a record\<close>

text \<open>
  Claim C1. For a file id that exists (it is below \<open>fileIdCounter\<close>) and is not deleted,
  \<open>getFile\<close> returns the record's fields exactly when the caller is the record's owner,
  or the record is public, or the caller is in \<open>sharedWith\<close>; for every other caller it
  reverts with ``You do not have permission to access this file''. \<open>hasFileAccess\<close>
  computes the same condition.
\<close>

theorem getFile_access:
  assumes "fileId < fileIdCounter s" and "\<not> isDeleted (files s fileId)"
  shows "getFile caller fileId s =
           (if owner (files s fileId) = caller \<or> isPublic (files s fileId)
               \<or> sharedWith (files s fileId) caller
            then Inr (file_fields (files s fileId))
            else Inl (Revert ''You do not have permission to access this file''))
         \<and> hasFileAccess fileId caller s =
             Inr (owner (files s fileId) = caller \<or> isPublic (files s fileId)
               \<or> sharedWith (files s fileId) caller)"
  using assms by (simp add: getFile_def hasFileAccess_def Let_def)

theorem getFile_access_witness:
  "1 < fileIdCounter (run scenario_txs (constructor 1)) \<and>
   \<not> isDeleted (files (run scenario_txs (constructor 1)) 1) \<and>
   getFile 11 1 (run scenario_txs (constructor 1)) =
     Inr (1, ''b.txt'', ''text/plain'', 1000, ''QmB'', [], 10, 1700000060, False) \<and>
   hasFileAccess 1 11 (run scenario_txs (constructor 1)) = Inr True \<and>
   getFile 12 1 (run scenario_txs (constructor 1)) =
     Inl (Revert ''You do not have permission to access this file'') \<and>
   hasFileAccess 1 12 (run scenario_txs (constructor 1)) = Inr False"
  using getFile_access [of 1 "run scenario_txs (constructor 1)" 11]
    getFile_access [of 1 "run scenario_txs (constructor 1)" 12]
  by (simp add: scenario_state)

subsection \<open>C2: fee accounting of uploadFile\<close>

text \<open>
  Claim C2, as amended. Write \<open>fee\<close> for \<open>exact_fee fileSize s\<close>, the product
  \<^verbatim>\<open>fileSize * storageFeePerByte\<close> over the natural numbers.
  \<^item> \<open>uploadFile\<close> succeeds exactly when \<open>fee\<close> fits in 256 bits, \<^verbatim>\<open>msg.value\<close> is at least
    \<open>fee\<close>, the id counter can be incremented, and, when there is an excess, the caller
    accepts the refund.
  \<^item> When it succeeds, the only payment is the excess \<open>msg.value - fee\<close> to the caller
    (none when the excess is zero), and the contract's balance has grown by exactly
    \<open>fee\<close>.
  \<^item> When \<open>fee\<close> fits in 256 bits and \<^verbatim>\<open>msg.value\<close> is below it, the call reverts with
    ``Insufficient Ether sent to cover storage fees''.
  \<^item> When \<open>fee\<close> does not fit in 256 bits, the call reverts with an arithmetic panic
    instead, whatever was paid.
  \<^item> A call that reverts leaves the storage unchanged.
\<close>

theorem uploadFile_fee_accounting:
  "((\<exists>r. uploadFile accepts sender val now fileName' fileType' fileSize' ipfsHash'
           description' isPublic' s = Inr r) \<longleftrightarrow>
      exact_fee fileSize' s < 2 ^ 256 \<and> exact_fee fileSize' s \<le> unat val \<and>
      unat (fileIdCounter s) + 1 < 2 ^ 256 \<and>
      (exact_fee fileSize' s < unat val \<longrightarrow> accepts sender)) \<and>
   (\<forall>fileId payments s'.
      uploadFile accepts sender val now fileName' fileType' fileSize' ipfsHash'
        description' isPublic' s = Inr (fileId, payments, s') \<longrightarrow>
      payments = (if exact_fee fileSize' s < unat val
                  then [(sender, unat val - exact_fee fileSize' s)] else []) \<and>
      sum_list (map snd payments) + exact_fee fileSize' s = unat val \<and>
      balance s' = balance s + exact_fee fileSize' s) \<and>
   (exact_fee fileSize' s < 2 ^ 256 \<and> unat val < exact_fee fileSize' s \<longrightarrow>
      uploadFile accepts sender val now fileName' fileType' fileSize' ipfsHash'
        description' isPublic' s =
      Inl (Revert ''Insufficient Ether sent to cover storage fees'')) \<and>
   (2 ^ 256 \<le> exact_fee fileSize' s \<longrightarrow>
      uploadFile accepts sender val now fileName' fileType' fileSize' ipfsHash'
        description' isPublic' s = Inl Panic) \<and>
   (\<forall>e. uploadFile accepts sender val now fileName' fileType' fileSize' ipfsHash'
          description' isPublic' s = Inl e \<longrightarrow>
        transact accepts (UploadFile sender val now fileName' fileType' fileSize' ipfsHash'
          description' isPublic') s = s)"
  using uploadFile_cases [of accepts sender val now fileName' fileType' fileSize' ipfsHash'
      description' isPublic' s]
  by (cases "uploadFile accepts sender val now fileName' fileType' fileSize' ipfsHash'
        description' isPublic' s") (auto split: if_splits)

theorem uploadFile_fee_accounting_witness:
  "exact_fee 1000 (run [(accept_all, UpdateStorageFee 1 100)] (constructor 1)) = 100000 \<and>
   (case uploadFile accept_all 10 150000 1700000060 ''b.txt'' ''text/plain'' 1000 ''QmB'' []
           False (run [(accept_all, UpdateStorageFee 1 100)] (constructor 1)) of
      Inl e \<Rightarrow> False
    | Inr (fileId, payments, s') \<Rightarrow>
        fileId = 0 \<and> payments = [(10, 50000)] \<and> balance s' = 100000) \<and>
   uploadFile accept_all 10 99999 1700000060 ''b.txt'' ''text/plain'' 1000 ''QmB'' []
     False (run [(accept_all, UpdateStorageFee 1 100)] (constructor 1)) =
     Inl (Revert ''Insufficient Ether sent to cover storage fees'')"
  using uploadFile_fee_accounting [of accept_all 10 150000 1700000060 "''b.txt''"
      "''text/plain''" 1000 "''QmB''" "[]" False
      "run [(accept_all, UpdateStorageFee 1 100)] (constructor 1)"]
    uploadFile_fee_accounting [of accept_all 10 99999 1700000060 "''b.txt''"
      "''text/plain''" 1000 "''QmB''" "[]" False
      "run [(accept_all, UpdateStorageFee 1 100)] (constructor 1)"]
  by (simp add: eval_defs exact_fee_def)

text \<open>
  The claim as stated fails where the product overflows: in the freshly deployed
  contract (1000 wei per byte), a call with \<open>fileSize = 2 ^ 255\<close> that pays nothing pays
  less than the fee, and reverts with the arithmetic panic, not with the
  insufficient-payment message. It also fails for a caller that does not accept ether:
  paying 150000 wei for a fee of 100000 reverts, so that nothing is returned and nothing
  is retained.
\<close>

theorem fee_counterexample:
  "unat (0 :: uint256) <
     exact_fee 57896044618658097711785492504343953926634992332820282019728792003956564819968
       (constructor 1) \<and>
   uploadFile accept_all 10 0 1700000000 ''a.txt'' ''text/plain''
     57896044618658097711785492504343953926634992332820282019728792003956564819968
     ''QmA'' [] False (constructor 1) = Inl Panic \<and>
   exact_fee 100 (constructor 1) + 50000 = unat (150000 :: uint256) \<and>
   uploadFile (\<lambda>a. False) 10 150000 1700000000 ''a.txt'' ''text/plain'' 100 ''QmA'' [] False
     (constructor 1) = Inl TransferFailed"
  by (simp add: eval_defs exact_fee_def)

subsection \<open>C3: the public index\<close>

text \<open>
  Claim C3. After every run of transactions from deployment, \<open>getPublicFiles\<close> has no
  duplicate and holds exactly the ids whose record is public and not deleted. In such a
  state, a successful \<open>uploadFile\<close> of a public file puts the new id into the index, and
  a successful \<open>deleteFile\<close> leaves the deleted id out of it.
\<close>

theorem public_index_consistent:
  "distinct (getPublicFiles (run txs (constructor deployer))) \<and>
   set (getPublicFiles (run txs (constructor deployer))) =
     {i. isPublic (files (run txs (constructor deployer)) i) \<and>
         \<not> isDeleted (files (run txs (constructor deployer)) i)} \<and>
   (\<forall>accepts sender val now fileName' fileType' fileSize' ipfsHash' description' fileId
       payments s'.
      uploadFile accepts sender val now fileName' fileType' fileSize' ipfsHash' description'
        True (run txs (constructor deployer)) = Inr (fileId, payments, s') \<longrightarrow>
      fileId \<in> set (getPublicFiles s')) \<and>
   (\<forall>sender fileId s'.
      deleteFile sender fileId (run txs (constructor deployer)) = Inr s' \<longrightarrow>
      fileId \<notin> set (getPublicFiles s'))"
proof -
  let ?s = "run txs (constructor deployer)"
  have inv: "public_inv ?s"
    by (rule public_inv_run [OF public_inv_constructor])
  then have 1: "distinct (getPublicFiles ?s)"
    and 2: "set (getPublicFiles ?s) = {i. isPublic (files ?s i) \<and> \<not> isDeleted (files ?s i)}"
    by (simp_all add: public_inv_def getPublicFiles_def)
  have 3: "fileId \<in> set (getPublicFiles s')"
    if up: "uploadFile accepts sender val now fileName' fileType' fileSize' ipfsHash'
        description' True ?s = Inr (fileId, payments, s')"
    for accepts sender val now fileName' fileType' fileSize' ipfsHash' description' fileId
      payments s'
    using uploadFile_Inr(1,6) [OF up] by (simp add: getPublicFiles_def)
  have 4: "fileId \<notin> set (getPublicFiles s')"
    if del: "deleteFile sender fileId ?s = Inr s'" for sender fileId s'
  proof -
    have "public_inv s'" by (rule public_inv_deleteFile [OF inv del])
    moreover have "isDeleted (files s' fileId)" by (simp add: deleteFile_Inr(4) [OF del])
    ultimately show ?thesis by (simp add: public_inv_def getPublicFiles_def)
  qed
  from 1 2 3 4 show ?thesis by blast
qed

theorem public_index_consistent_witness:
  "getPublicFiles (run setup_txs (constructor 1)) = [0] \<and>
   set (getPublicFiles (run setup_txs (constructor 1))) =
     {i. isPublic (files (run setup_txs (constructor 1)) i) \<and>
         \<not> isDeleted (files (run setup_txs (constructor 1)) i)} \<and>
   deleteFile 10 0 (run setup_txs (constructor 1)) =
     Inr (run [(accept_all, DeleteFile 10 0)] (run setup_txs (constructor 1))) \<and>
   0 \<notin> set (getPublicFiles (run [(accept_all, DeleteFile 10 0)]
                (run setup_txs (constructor 1))))"
proof -
  have del: "deleteFile 10 0 (run setup_txs (constructor 1)) =
     Inr (run [(accept_all, DeleteFile 10 0)] (run setup_txs (constructor 1)))"
    by (simp add: eval_defs)
  note inst = public_index_consistent [of setup_txs 1]
  from inst have "set (getPublicFiles (run setup_txs (constructor 1))) =
     {i. isPublic (files (run setup_txs (constructor 1)) i) \<and>
         \<not> isDeleted (files (run setup_txs (constructor 1)) i)}"
    by blast
  moreover from inst del
  have "0 \<notin> set (getPublicFiles (run [(accept_all, DeleteFile 10 0)]
                (run setup_txs (constructor 1))))"
    by blast
  moreover have "getPublicFiles (run setup_txs (constructor 1)) = [0]"
    by (simp add: getPublicFiles_def setup_state)
  ultimately show ?thesis using del by blast
qed

subsection \<open>C4: a deleted record cannot be read again\<close>

text \<open>
  Claim C4, as amended. Once \<open>deleteFile\<close> has succeeded on an id, then after any further
  run of transactions \<open>getFile\<close> of that id reverts for every caller, the original owner
  included. The revert reason is ``File has been deleted'', which is distinct from the
  ``File does not exist'' of an id that was never issued.
\<close>

theorem getFile_after_deleteFile:
  assumes "deleteFile sender fileId s = Inr s1"
  shows "getFile caller fileId (run txs s1) = Inl (Revert ''File has been deleted'')"
proof -
  note d = deleteFile_Inr [OF assms]
  have "fileId < fileIdCounter s1" "isDeleted (files s1 fileId)"
    using d(1) by (simp_all add: d(4,6))
  from deleted_run [OF this, of txs] show ?thesis by (simp add: getFile_def)
qed

theorem getFile_after_deleteFile_witness:
  "deleteFile 10 0 (run setup_txs (constructor 1)) =
     Inr (run [(accept_all, DeleteFile 10 0)] (run setup_txs (constructor 1))) \<and>
   getFile 10 0 (run [(accept_all, ShareFile 10 1 11)]
     (run [(accept_all, DeleteFile 10 0)] (run setup_txs (constructor 1)))) =
     Inl (Revert ''File has been deleted'')"
proof -
  have del: "deleteFile 10 0 (run setup_txs (constructor 1)) =
     Inr (run [(accept_all, DeleteFile 10 0)] (run setup_txs (constructor 1)))"
    by (simp add: eval_defs)
  from getFile_after_deleteFile [OF del, of 10 "[(accept_all, ShareFile 10 1 11)]"] del
  show ?thesis by blast
qed

text \<open>
  The claim as stated fails on the kind of failure: the owner's read of the deleted id 0
  reverts with ``File has been deleted'', which is not what a read of the absent id 2
  reverts with.
\<close>

theorem deleted_counterexample:
  "deleteFile 10 0 (run setup_txs (constructor 1)) =
     Inr (run [(accept_all, DeleteFile 10 0)] (run setup_txs (constructor 1))) \<and>
   getFile 10 0 (run [(accept_all, DeleteFile 10 0)] (run setup_txs (constructor 1))) =
     Inl (Revert ''File has been deleted'') \<and>
   getFile 10 0 (run [(accept_all, DeleteFile 10 0)] (run setup_txs (constructor 1))) \<noteq>
     getFile 10 2 (run [(accept_all, DeleteFile 10 0)] (run setup_txs (constructor 1))) \<and>
   getFile 10 2 (run [(accept_all, DeleteFile 10 0)] (run setup_txs (constructor 1))) =
     Inl (Revert ''File does not exist'')"
  by (simp add: eval_defs getFile_def)

subsection \<open>C5: ids are issued in strictly increasing order\<close>

text \<open>
  Claim C5. For every run of transactions from every state, the ids returned by the
  successful \<open>uploadFile\<close> calls, in the order of the calls, are strictly increasing (so
  each is greater than every id issued before it, and none occurs twice, whatever was
  deleted in between), and none is below the counter the run started with.
\<close>

theorem issued_ids_increasing:
  "sorted_wrt (<) (map snd (issued_ids txs s)) \<and>
   distinct (map snd (issued_ids txs s)) \<and>
   (\<forall>p \<in> set (issued_ids txs s). fileIdCounter s \<le> snd p)"
proof -
  have "sorted_wrt (<) (map snd (issued_ids txs s)) \<and>
    (\<forall>p \<in> set (issued_ids txs s). fileIdCounter s \<le> snd p)"
  proof (induction txs arbitrary: s)
    case Nil
    show ?case by simp
  next
    case (Cons tx txs)
    obtain accepts c where tx: "tx = (accepts, c)" by (cases tx)
    let ?s' = "transact accepts c s"
    have IH: "sorted_wrt (<) (map snd (issued_ids txs ?s'))"
      "\<forall>p \<in> set (issued_ids txs ?s'). fileIdCounter ?s' \<le> snd p"
      using Cons.IH [of ?s'] by simp_all
    have mono: "fileIdCounter s \<le> fileIdCounter ?s'" by (rule fileIdCounter_transact)
    from issued_cases [of accepts c s] show ?case
    proof
      assume "issued accepts c s = []"
      with IH mono tx show ?thesis by (auto intro: order_trans)
    next
      assume "\<exists>a. issued accepts c s = [(a, fileIdCounter s)] \<and> fileIdCounter s < fileIdCounter ?s'"
      then obtain a where a: "issued accepts c s = [(a, fileIdCounter s)]"
        and lt: "fileIdCounter s < fileIdCounter ?s'" by blast
      have "\<forall>p \<in> set (issued_ids txs ?s'). fileIdCounter s < snd p"
        using IH(2) lt by (auto intro: less_le_trans)
      with IH a tx mono show ?thesis by (auto intro: order_trans)
    qed
  qed
  then show ?thesis by (simp add: strict_sorted_iff)
qed

theorem issued_ids_increasing_witness:
  "issued_ids scenario_txs (constructor 1) = [(10, 0), (10, 1)] \<and>
   sorted_wrt (<) (map snd (issued_ids scenario_txs (constructor 1))) \<and>
   distinct (map snd (issued_ids scenario_txs (constructor 1))) \<and>
   fileIdCounter (constructor 1) \<le> 0"
  using issued_ids_increasing [of scenario_txs "constructor 1"]
  by (simp add: eval_defs)

subsection \<open>C6: checks on the recipient\<close>

text \<open>
  Claim C6, as amended. On an existing record that is not deleted and whose owner is the
  caller, \<open>shareFile\<close> with the zero address reverts with ``Invalid recipient address'',
  and \<open>shareFile\<close> with the owner as recipient reverts with ``Cannot share with
  yourself''. \<open>revokeAccess\<close> does not check the recipient: it succeeds for every
  recipient, the zero address included, and clears the recipient's entry.
\<close>

theorem recipient_checks:
  assumes "fileId < fileIdCounter s" and "owner (files s fileId) = sender"
    and "\<not> isDeleted (files s fileId)"
  shows "shareFile sender fileId 0 s = Inl (Revert ''Invalid recipient address'') \<and>
         shareFile sender fileId sender s =
           Inl (Revert (if sender = 0 then ''Invalid recipient address''
                        else ''Cannot share with yourself'')) \<and>
         revokeAccess sender fileId recipient s =
           Inr (s\<lparr>files := (files s)(fileId := (files s fileId)
                  \<lparr>sharedWith := (sharedWith (files s fileId))(recipient := False)\<rparr>)\<rparr>)"
  using assms by (simp add: shareFile_def revokeAccess_def)

theorem recipient_checks_witness:
  "1 < fileIdCounter (run scenario_txs (constructor 1)) \<and>
   owner (files (run scenario_txs (constructor 1)) 1) = 10 \<and>
   \<not> isDeleted (files (run scenario_txs (constructor 1)) 1) \<and>
   shareFile 10 1 0 (run scenario_txs (constructor 1)) =
     Inl (Revert ''Invalid recipient address'') \<and>
   shareFile 10 1 10 (run scenario_txs (constructor 1)) =
     Inl (Revert ''Cannot share with yourself'') \<and>
   sharedWith (files (run scenario_txs (constructor 1)) 1) 11 \<and>
   (case revokeAccess 10 1 11 (run scenario_txs (constructor 1)) of
      Inl e \<Rightarrow> False
    | Inr s' \<Rightarrow> \<not> sharedWith (files s' 1) 11)"
  using recipient_checks [of 1 "run scenario_txs (constructor 1)" 10 11]
  by (simp add: scenario_state)

text \<open>
  The claim as stated fails for \<open>revokeAccess\<close>: the owner's revocation of the zero
  address on the live record 1 succeeds, and leaves the storage as it was.
\<close>

theorem revoke_zero_counterexample:
  "revokeAccess 10 1 0 (run scenario_txs (constructor 1)) =
     Inr (run scenario_txs (constructor 1))"
  by (simp add: eval_defs fun_upd_idem)

subsection \<open>C7: grant and revoke are idempotent\<close>

text \<open>
  Claim C7. On an existing record that is not deleted, called by its owner:
  \<open>revokeAccess\<close> of a recipient that is not granted succeeds and leaves the storage
  unchanged; for a recipient that \<open>shareFile\<close> accepts (not zero, not the owner), a second
  \<open>shareFile\<close> succeeds and changes nothing, the recipient's entry being a flag that is
  set, not a counter; and one \<open>revokeAccess\<close> afterwards clears it, which restores the
  original storage when the recipient was not granted at the start.
\<close>

theorem grant_revoke_idempotent:
  assumes "fileId < fileIdCounter s" and "owner (files s fileId) = sender"
    and "\<not> isDeleted (files s fileId)"
  shows "(\<not> sharedWith (files s fileId) r \<longrightarrow> revokeAccess sender fileId r s = Inr s) \<and>
         (r \<noteq> 0 \<and> r \<noteq> sender \<longrightarrow>
            (\<exists>s1. shareFile sender fileId r s = Inr s1 \<and>
                  shareFile sender fileId r s1 = Inr s1 \<and>
                  sharedWith (files s1 fileId) = (sharedWith (files s fileId))(r := True) \<and>
                  (\<exists>s2. revokeAccess sender fileId r s1 = Inr s2 \<and>
                        sharedWith (files s2 fileId) = (sharedWith (files s fileId))(r := False) \<and>
                        (\<not> sharedWith (files s fileId) r \<longrightarrow> s2 = s))))"
proof -
  have idem: "\<not> sharedWith (files s fileId) r \<Longrightarrow>
      (sharedWith (files s fileId))(r := False) = sharedWith (files s fileId)"
    by (simp add: fun_upd_idem)
  show ?thesis using assms idem by (simp add: shareFile_def revokeAccess_def)
qed

theorem grant_revoke_idempotent_witness:
  "1 < fileIdCounter (run scenario_txs (constructor 1)) \<and>
   owner (files (run scenario_txs (constructor 1)) 1) = 10 \<and>
   \<not> isDeleted (files (run scenario_txs (constructor 1)) 1) \<and>
   \<not> sharedWith (files (run scenario_txs (constructor 1)) 1) 12 \<and>
   revokeAccess 10 1 12 (run scenario_txs (constructor 1)) =
     Inr (run scenario_txs (constructor 1)) \<and>
   (case shareFile 10 1 12 (run scenario_txs (constructor 1)) of
      Inl e \<Rightarrow> False
    | Inr s1 \<Rightarrow>
        shareFile 10 1 12 s1 = Inr s1 \<and> sharedWith (files s1 1) 12 \<and>
        revokeAccess 10 1 12 s1 = Inr (run scenario_txs (constructor 1)))"
  using grant_revoke_idempotent [of 1 "run scenario_txs (constructor 1)" 10 12]
  by (auto simp: scenario_state)

subsection \<open>C8: the caller's own files\<close>

text \<open>
  Claim C8. In every state, \<open>getMyFiles\<close> returns the caller's list \<open>userFiles\<close> with the
  deleted ids filtered out, in the order of the list. After every run of transactions
  from deployment, that list holds the ids of the records the caller registered, in the
  order of registration. \<open>deleteFile\<close> does not change any user's list, so the filtering
  happens when the list is read.
\<close>

theorem getMyFiles_creation_order:
  "getMyFiles caller s =
     Inr (filter (\<lambda>i. \<not> isDeleted (files s i)) (userFiles s caller)) \<and>
   userFiles (run txs (constructor deployer)) caller =
     map snd (filter (\<lambda>p. fst p = caller) (issued_ids txs (constructor deployer))) \<and>
   getMyFiles caller (run txs (constructor deployer)) =
     Inr (filter (\<lambda>i. \<not> isDeleted (files (run txs (constructor deployer)) i))
       (map snd (filter (\<lambda>p. fst p = caller) (issued_ids txs (constructor deployer))))) \<and>
   (\<forall>sender fileId s'. deleteFile sender fileId s = Inr s' \<longrightarrow> userFiles s' = userFiles s)"
proof -
  have 1: "userFiles (run txs (constructor deployer)) caller =
     map snd (filter (\<lambda>p. fst p = caller) (issued_ids txs (constructor deployer)))"
    by (simp add: userFiles_run constructor_def)
  have 2: "userFiles s' = userFiles s" if "deleteFile sender fileId s = Inr s'"
    for sender fileId s'
    by (rule deleteFile_Inr(7) [OF that])
  have 3: "getMyFiles caller s' =
     Inr (filter (\<lambda>i. \<not> isDeleted (files s' i)) (userFiles s' caller))" for s'
    by (rule getMyFiles_eq)
  have 4: "getMyFiles caller (run txs (constructor deployer)) =
     Inr (filter (\<lambda>i. \<not> isDeleted (files (run txs (constructor deployer)) i))
       (map snd (filter (\<lambda>p. fst p = caller) (issued_ids txs (constructor deployer)))))"
    unfolding 3 1 ..
  show ?thesis
  proof (intro conjI allI impI)
    show "getMyFiles caller s =
        Inr (filter (\<lambda>i. \<not> isDeleted (files s i)) (userFiles s caller))"
      by (rule 3)
    show "userFiles (run txs (constructor deployer)) caller =
        map snd (filter (\<lambda>p. fst p = caller) (issued_ids txs (constructor deployer)))"
      by (rule 1)
    show "getMyFiles caller (run txs (constructor deployer)) =
        Inr (filter (\<lambda>i. \<not> isDeleted (files (run txs (constructor deployer)) i))
          (map snd (filter (\<lambda>p. fst p = caller) (issued_ids txs (constructor deployer)))))"
      by (rule 4)
    fix sender fileId s'
    assume "deleteFile sender fileId s = Inr s'"
    then show "userFiles s' = userFiles s" by (rule 2)
  qed
qed

theorem getMyFiles_creation_order_witness:
  "userFiles (run scenario_txs (constructor 1)) 10 = [0, 1] \<and>
   map snd (filter (\<lambda>p. fst p = 10) (issued_ids scenario_txs (constructor 1))) = [0, 1] \<and>
   getMyFiles 10 (run scenario_txs (constructor 1)) = Inr [1] \<and>
   deleteFile 10 0 (run setup_txs (constructor 1)) =
     Inr (run [(accept_all, DeleteFile 10 0)] (run setup_txs (constructor 1))) \<and>
   userFiles (run [(accept_all, DeleteFile 10 0)] (run setup_txs (constructor 1))) 10 = [0, 1]"
proof -
  have del: "deleteFile 10 0 (run setup_txs (constructor 1)) =
     Inr (run [(accept_all, DeleteFile 10 0)] (run setup_txs (constructor 1)))"
    by (simp add: eval_defs)
  note inst = getMyFiles_creation_order [of 10 "run scenario_txs (constructor 1)"
      scenario_txs 1]
  have a: "map snd (filter (\<lambda>p. fst p = 10) (issued_ids scenario_txs (constructor 1)))
      = [0, 1]"
    unfolding inst [THEN conjunct2, THEN conjunct1, symmetric] by (rule scenario_state)
  from inst [THEN conjunct1]
  have b: "getMyFiles 10 (run scenario_txs (constructor 1)) = Inr [1]"
    by (simp add: scenario_state)
  from getMyFiles_creation_order [of 10 "run setup_txs (constructor 1)" "[]" 1,
      THEN conjunct2, THEN conjunct2, THEN conjunct2, rule_format, OF del]
  have c: "userFiles (run [(accept_all, DeleteFile 10 0)]
      (run setup_txs (constructor 1))) 10 = [0, 1]"
    by (simp add: setup_state)
  from scenario_state(4) a b del c show ?thesis by (intro conjI)
qed

subsection \<open>C9: updateStorageFee\<close>

text \<open>
  Claim C9. \<open>updateStorageFee\<close> succeeds exactly for the administrator (the \<open>Ownable\<close>
  owner) and fails with \<open>Unauthorized\<close> for every other caller. When it succeeds, the new
  storage differs from the old one in \<open>storageFeePerByte\<close> only: the records, the
  per-user lists, the public index, the id counter, the balance and the administrator
  are unchanged, and \<open>calculateStorageFee\<close>, which later registrations are charged by,
  uses the new rate.
\<close>

theorem updateStorageFee_frame:
  "updateStorageFee sender newFeePerByte s =
     (if sender = ownable_owner s then Inr (s\<lparr>storageFeePerByte := newFeePerByte\<rparr>)
      else Inl Unauthorized) \<and>
   (\<forall>s'. updateStorageFee sender newFeePerByte s = Inr s' \<longrightarrow>
      sender = ownable_owner s \<and> storageFeePerByte s' = newFeePerByte \<and>
      files s' = files s \<and> userFiles s' = userFiles s \<and> publicFiles s' = publicFiles s \<and>
      fileIdCounter s' = fileIdCounter s \<and> balance s' = balance s \<and>
      ownable_owner s' = ownable_owner s \<and>
      (\<forall>fileSize'. calculateStorageFee fileSize' s' = checked_mul fileSize' newFeePerByte))"
  by (auto simp: updateStorageFee_def onlyOwner_def calculateStorageFee_def)

theorem updateStorageFee_frame_witness:
  "updateStorageFee 1 100 (run scenario_txs (constructor 1)) =
     Inr ((run scenario_txs (constructor 1))\<lparr>storageFeePerByte := 100\<rparr>) \<and>
   updateStorageFee 10 0 (run scenario_txs (constructor 1)) = Inl Unauthorized \<and>
   (case updateStorageFee 1 7 (run scenario_txs (constructor 1)) of
      Inl e \<Rightarrow> False
    | Inr s' \<Rightarrow>
        files s' = files (run scenario_txs (constructor 1)) \<and>
        fileIdCounter s' = 2 \<and> publicFiles s' = [] \<and> userFiles s' 10 = [0, 1] \<and>
        calculateStorageFee 1000 s' = Inr 7000)"
proof -
  let ?S = "run scenario_txs (constructor 1)"
  have a: "updateStorageFee 1 100 ?S = Inr (?S\<lparr>storageFeePerByte := 100\<rparr>)"
    using updateStorageFee_frame [of 1 100 ?S, THEN conjunct1]
    by (simp add: scenario_state)
  have b: "updateStorageFee 10 0 ?S = Inl Unauthorized"
    using updateStorageFee_frame [of 10 0 ?S, THEN conjunct1]
    by (simp add: scenario_state)
  have c: "updateStorageFee 1 7 ?S = Inr (?S\<lparr>storageFeePerByte := 7\<rparr>)"
    using updateStorageFee_frame [of 1 7 ?S, THEN conjunct1]
    by (simp add: scenario_state)
  note d = updateStorageFee_frame [of 1 7 ?S, THEN conjunct2, rule_format, OF c]
  have e: "checked_mul 1000 7 = Inr 7000" by (simp add: checked_mul_def)
  from d have "calculateStorageFee 1000 (?S\<lparr>storageFeePerByte := 7\<rparr>) = Inr 7000"
    by (simp add: e)
  with a b c show ?thesis by (simp add: scenario_state)
qed

subsection \<open>C10: withdrawFunds\<close>

text \<open>
  Claim C10, as amended. \<open>withdrawFunds\<close> fails with \<open>Unauthorized\<close> for every caller but
  the administrator. Called by the administrator, it reverts with ``No funds available
  to withdraw'' when the balance is zero; when the balance is positive and the
  administrator's address accepts ether, it pays the whole balance to the administrator
  in one transfer and leaves a balance of zero; when the balance is positive and the
  administrator's address does not accept ether, the call reverts and the balance stays
  in the contract. \<open>getContractBalance\<close> shows the balance to the administrator only.
  So the fee that a successful \<open>uploadFile\<close> retains can be withdrawn right after it,
  together with whatever the contract held before, by an administrator whose address
  accepts ether, and by no one while it does not.
\<close>

theorem withdrawFunds_payout:
  "withdrawFunds accepts sender s =
     (if sender \<noteq> ownable_owner s then Inl Unauthorized
      else if balance s = 0 then Inl (Revert ''No funds available to withdraw'')
      else if accepts (ownable_owner s)
      then Inr ([(ownable_owner s, balance s)], s\<lparr>balance := 0\<rparr>)
      else Inl TransferFailed) \<and>
   getContractBalance sender s =
     (if sender = ownable_owner s then Inr (balance s) else Inl Unauthorized) \<and>
   (\<forall>acc a val now fileName' fileType' fileSize' ipfsHash' description' isPublic' fileId
      payments s1.
      uploadFile acc a val now fileName' fileType' fileSize' ipfsHash' description' isPublic' s
        = Inr (fileId, payments, s1) \<and> 0 < exact_fee fileSize' s \<and> accepts (ownable_owner s)
      \<longrightarrow> withdrawFunds accepts (ownable_owner s) s1 =
            Inr ([(ownable_owner s, balance s + exact_fee fileSize' s)], s1\<lparr>balance := 0\<rparr>)) \<and>
   (0 < balance s \<and> \<not> accepts (ownable_owner s) \<longrightarrow>
      (\<forall>caller. \<exists>e. withdrawFunds accepts caller s = Inl e) \<and>
      withdrawFunds accepts (ownable_owner s) s = Inl TransferFailed \<and>
      (\<forall>caller. transact accepts (WithdrawFunds caller) s = s))"
proof -
  have 1: "withdrawFunds accepts sender s =
     (if sender \<noteq> ownable_owner s then Inl Unauthorized
      else if balance s = 0 then Inl (Revert ''No funds available to withdraw'')
      else if accepts (ownable_owner s)
      then Inr ([(ownable_owner s, balance s)], s\<lparr>balance := 0\<rparr>)
      else Inl TransferFailed)" for sender s
    by (simp add: withdrawFunds_def onlyOwner_def transfer_ether_def Let_def)
  have 2: "getContractBalance sender s =
     (if sender = ownable_owner s then Inr (balance s) else Inl Unauthorized)"
    by (simp add: getContractBalance_def onlyOwner_def)
  have 3: "withdrawFunds accepts (ownable_owner s) s1 =
            Inr ([(ownable_owner s, balance s + exact_fee fileSize' s)], s1\<lparr>balance := 0\<rparr>)"
    if up: "uploadFile acc a val now fileName' fileType' fileSize' ipfsHash' description'
         isPublic' s = Inr (fileId, payments, s1)"
      and pos: "0 < exact_fee fileSize' s" and ok: "accepts (ownable_owner s)"
    for acc a val now fileName' fileType' fileSize' ipfsHash' description' isPublic' fileId
      payments s1
  proof -
    from uploadFile_cases [of acc a val now fileName' fileType' fileSize' ipfsHash'
        description' isPublic' s] up
    have "balance s1 = balance s + exact_fee fileSize' s" by simp
    moreover have "ownable_owner s1 = ownable_owner s" by (rule uploadFile_Inr(8) [OF up])
    ultimately show ?thesis using pos ok by (simp add: 1)
  qed
  have 4: "(\<forall>caller. \<exists>e. withdrawFunds accepts caller s = Inl e) \<and>
      withdrawFunds accepts (ownable_owner s) s = Inl TransferFailed \<and>
      (\<forall>caller. transact accepts (WithdrawFunds caller) s = s)"
    if "0 < balance s" and "\<not> accepts (ownable_owner s)"
    using that by (simp add: 1)
  from 1 2 3 4 show ?thesis by blast
qed

theorem withdrawFunds_payout_witness:
  "withdrawFunds accept_all 1000001 (run funded_txs (constructor 1000001)) =
     Inr ([(1000001, 100000)], (run funded_txs (constructor 1000001))\<lparr>balance := 0\<rparr>) \<and>
   withdrawFunds accept_all 1000010 (run funded_txs (constructor 1000001)) =
     Inl Unauthorized \<and>
   withdrawFunds accept_all 1000001 (constructor 1000001) =
     Inl (Revert ''No funds available to withdraw'') \<and>
   getContractBalance 1000001 (run funded_txs (constructor 1000001)) = Inr 100000 \<and>
   getContractBalance 1000010 (run funded_txs (constructor 1000001)) = Inl Unauthorized \<and>
   0 < balance (run funded_txs (constructor 1000001)) \<and>
   \<not> refuse_admin (ownable_owner (run funded_txs (constructor 1000001))) \<and>
   withdrawFunds refuse_admin 1000001 (run funded_txs (constructor 1000001)) =
     Inl TransferFailed \<and>
   transact refuse_admin (WithdrawFunds 1000001) (run funded_txs (constructor 1000001)) =
     run funded_txs (constructor 1000001)"
proof -
  let ?S = "run funded_txs (constructor 1000001)"
  have a: "withdrawFunds accept_all 1000001 ?S =
      Inr ([(1000001, 100000)], ?S\<lparr>balance := 0\<rparr>)"
    using withdrawFunds_payout [of accept_all 1000001 ?S, THEN conjunct1]
    by (simp add: funded_state accept_all_def)
  have b: "withdrawFunds accept_all 1000010 ?S = Inl Unauthorized"
    using withdrawFunds_payout [of accept_all 1000010 ?S, THEN conjunct1]
    by (simp add: funded_state)
  have c: "withdrawFunds accept_all 1000001 (constructor 1000001) =
      Inl (Revert ''No funds available to withdraw'')"
    using withdrawFunds_payout [of accept_all 1000001 "constructor 1000001", THEN conjunct1]
    by (simp add: constructor_def)
  have d: "getContractBalance 1000001 ?S = Inr 100000"
    using withdrawFunds_payout [of accept_all 1000001 ?S, THEN conjunct2, THEN conjunct1]
    by (simp add: funded_state)
  have e: "getContractBalance 1000010 ?S = Inl Unauthorized"
    using withdrawFunds_payout [of accept_all 1000010 ?S, THEN conjunct2, THEN conjunct1]
    by (simp add: funded_state)
  have pos: "0 < balance ?S" by (simp add: funded_state)
  have no: "\<not> refuse_admin (ownable_owner ?S)" by (simp add: funded_state refuse_admin_def)
  note r = withdrawFunds_payout [of refuse_admin 1000001 ?S, THEN conjunct2, THEN conjunct2,
      THEN conjunct2, rule_format, OF conjI, OF pos no]
  have f: "withdrawFunds refuse_admin 1000001 ?S = Inl TransferFailed"
    using r [THEN conjunct2, THEN conjunct1] by (simp add: funded_state)
  have g: "transact refuse_admin (WithdrawFunds 1000001) ?S = ?S"
    by (rule r [THEN conjunct2, THEN conjunct2, rule_format])
  from a b c d e pos no f g show ?thesis by (intro conjI)
qed

text \<open>
  The claim as stated fails for an administrator whose address does not accept ether:
  the contract holds the 100000 wei fee of the registration, the administrator's
  \<open>withdrawFunds\<close> reverts, and the balance is still there afterwards.
\<close>

theorem withdraw_refused_counterexample:
  "ownable_owner (run funded_txs (constructor 1000001)) = 1000001 \<and>
   balance (run funded_txs (constructor 1000001)) = 100000 \<and>
   withdrawFunds refuse_admin 1000001 (run funded_txs (constructor 1000001)) =
     Inl TransferFailed \<and>
   balance (transact refuse_admin (WithdrawFunds 1000001)
     (run funded_txs (constructor 1000001))) = 100000"
  by (simp add: funded_state withdrawFunds_def onlyOwner_def transfer_ether_def
      refuse_admin_def Let_def)

end
